theory Spec2Isabelle
  imports Complex_Main
begin

section \<open>JavaScript strings and values\<close>

text \<open>
  Strings are modelled as \<^typ>\<open>string\<close>. The string methods the program uses are modelled on
  the ASCII range: \<open>toLowerCase\<close> maps \<open>A\<close>..\<open>Z\<close> to \<open>a\<close>..\<open>z\<close> and leaves every other
  character alone, and \<open>trim\<close> removes the ASCII white space characters at both ends.
\<close>

definition toLowerChar :: "char \<Rightarrow> char" where
  "toLowerChar c =
     (case map_of (zip ''ABCDEFGHIJKLMNOPQRSTUVWXYZ'' ''abcdefghijklmnopqrstuvwxyz'') c of
        Some d \<Rightarrow> d
      | None \<Rightarrow> c)"

definition toLowerCase :: "string \<Rightarrow> string" where
  "toLowerCase s = map toLowerChar s"

definition isSpace :: "char \<Rightarrow> bool" where
  "isSpace c = (c \<in> set [CHR '' '', CHR 0x09, CHR 0x0A, CHR 0x0B, CHR 0x0C, CHR 0x0D])"

definition trim :: "string \<Rightarrow> string" where
  "trim s = rev (dropWhile isSpace (rev (dropWhile isSpace s)))"

text \<open>
  A value as \<open>JSON.parse\<close> produces it, together with \<open>undefined\<close>. An object is the
  list of its own properties, each key once.
\<close>

datatype jsvalue =
    JUndefined
  | JNull
  | JBool bool
  | JNumber real
  | JString string
  | JArray "jsvalue list"
  | JObject "(string \<times> jsvalue) list"

text \<open>Truthiness, as \<open>||\<close> and \<open>if\<close> test it.\<close>

fun truthy :: "jsvalue \<Rightarrow> bool" where
  "truthy JUndefined = False"
| "truthy JNull = False"
| "truthy (JBool b) = b"
| "truthy (JNumber r) = (r \<noteq> 0)"
| "truthy (JString s) = (s \<noteq> [])"
| "truthy (JArray _) = True"
| "truthy (JObject _) = True"

definition js_or :: "jsvalue \<Rightarrow> jsvalue \<Rightarrow> jsvalue" where
  "js_or a b = (if truthy a then a else b)"

text \<open>
  An awaited call either rejects with an error, of which the program only reads the
  message, or resolves to a value.
\<close>

type_synonym 'a promise = "string + 'a"

section \<open>types.ts\<close>

datatype SolverType = GEMINI | VECTORS | OPENAI | CLAUDE

datatype GameStatus = IDLE | STARTING | PLAYING | PAUSED | SUCCESS | FAILED | LOADING_STEP

record WikiPage =
  title :: string
  summary :: string
  links :: "string list"
  page_extract :: "string option"

text \<open>
  The fields of \<open>AIResponse\<close> are declared as strings; the remote solvers fill them from
  parsed JSON without checking, so at run time they hold any value.
\<close>

record AIResponse =
  reasoning :: jsvalue
  selectedLink :: jsvalue

record GameStep =
  pageTitle :: string
  thought :: jsvalue
  timestamp :: int
  duration :: real
  solver :: SolverType

text \<open>\<open>xs[0]\<close> of a string array: \<open>undefined\<close> when the array is empty.\<close>

definition first_link :: "string list \<Rightarrow> jsvalue" where
  "first_link xs = (case xs of [] \<Rightarrow> JUndefined | l # _ \<Rightarrow> JString l)"

section \<open>services/vectorService.ts\<close>

text \<open>
  A JavaScript number as the scoring loop sees it: \<open>NaN\<close>, or a number. Rounding and the
  infinities are not modelled; reading an array out of range gives \<open>undefined\<close>, which
  arithmetic turns into \<open>NaN\<close>.
\<close>

datatype jsnum = NaN | Num real

fun js_add :: "jsnum \<Rightarrow> jsnum \<Rightarrow> jsnum" where
  "js_add (Num a) (Num b) = Num (a + b)"
| "js_add _ _ = NaN"

fun js_mul :: "jsnum \<Rightarrow> jsnum \<Rightarrow> jsnum" where
  "js_mul (Num a) (Num b) = Num (a * b)"
| "js_mul _ _ = NaN"

fun js_gt :: "jsnum \<Rightarrow> jsnum \<Rightarrow> bool" where
  "js_gt (Num a) (Num b) = (a > b)"
| "js_gt _ _ = False"

definition at_index :: "jsnum list \<Rightarrow> nat \<Rightarrow> jsnum" where
  "at_index xs i = (if i < length xs then xs ! i else NaN)"

text \<open>
  The feature-extraction pipeline is a library object. Called on the target it yields a
  vector (\<open>targetOutput.data\<close>); called on the candidates it yields a tensor, of which the
  program reads \<open>dims[1]\<close> and the flat \<open>data\<close>. Either call may reject.
\<close>

record Embeddings =
  dims1 :: nat
  data :: "jsnum list"

record Extractor =
  embedText :: "string \<Rightarrow> (jsnum list) promise"
  embedList :: "string list \<Rightarrow> Embeddings promise"

text \<open>
  What the solver takes from outside: the outcome of \<open>await loadModel()\<close> (the extractor,
  \<open>null\<close>, or a rejection) and the number formatting \<open>toFixed(3)\<close>.
\<close>

record VectorEnv =
  loadModel :: "(Extractor option) promise"
  toFixed3 :: "jsnum \<Rightarrow> string"

text \<open>\<open>Array.from(new Set(xs))\<close>: each element once, in the order of first occurrence.\<close>

definition arrayFromSet :: "'a list \<Rightarrow> 'a list" where
  "arrayFromSet xs = fold (\<lambda>x acc. if x \<in> set acc then acc else acc @ [x]) xs []"

text \<open>
  Lines 269 to 287 of the solver: the visited set, the deduplicated links, the filter, the
  fallback and the truncation. The result is the candidate list and \<open>isBacktracking\<close>.
\<close>

definition candidateFilter :: "WikiPage \<Rightarrow> string list \<Rightarrow> string list \<times> bool" where
  "candidateFilter currentPage history =
     (let normalizedHistory = set (map toLowerCase history) \<union> {toLowerCase (title currentPage)};
          allUniqueLinks = arrayFromSet (links currentPage);
          candidates = filter (\<lambda>l. toLowerCase l \<notin> normalizedHistory) allUniqueLinks;
          isBacktracking = (candidates = []);
          candidates = (if candidates = []
                        then filter (\<lambda>l. toLowerCase l \<noteq> toLowerCase (title currentPage)) allUniqueLinks
                        else candidates)
      in (take 200 candidates, isBacktracking))"

text \<open>The inner loop: the dot product of the target vector with row \<open>i\<close> of the flat data.\<close>

definition dotProduct :: "jsnum list \<Rightarrow> jsnum list \<Rightarrow> nat \<Rightarrow> nat \<Rightarrow> jsnum" where
  "dotProduct targetVec dat hiddenSize i =
     fold (\<lambda>j dot. js_add dot (js_mul (at_index targetVec j) (at_index dat (i * hiddenSize + j))))
          [0..<hiddenSize] (Num 0)"

text \<open>
  The outer loop, lines 304 to 320, over the score \<open>dotOf i\<close> of each candidate. It is
  reached with a non-empty candidate list only.
\<close>

definition selectBest :: "string list \<Rightarrow> (nat \<Rightarrow> jsnum) \<Rightarrow> jsnum \<times> string" where
  "selectBest candidates dotOf =
     fold (\<lambda>i (maxScore, bestLink).
             if js_gt (dotOf i) maxScore then (dotOf i, candidates ! i) else (maxScore, bestLink))
          [0..<length candidates] (Num (- 2), candidates ! 0)"

definition directMatch :: "WikiPage \<Rightarrow> string \<Rightarrow> string option" where
  "directMatch currentPage targetPage =
     (let targetLower = toLowerCase targetPage
      in find (\<lambda>l. toLowerCase l = targetLower) (links currentPage))"

definition vector_getNextMove ::
    "VectorEnv \<Rightarrow> WikiPage \<Rightarrow> string \<Rightarrow> string list \<Rightarrow> AIResponse promise" where
  "vector_getNextMove env currentPage targetPage history =
     (let directLink = directMatch currentPage targetPage
      in if (case directLink of None \<Rightarrow> False | Some l \<Rightarrow> l \<noteq> [])
         then Inr \<lparr>reasoning = JString (''Target identified! '' @ [CHR 0x22] @ the directLink
                                          @ [CHR 0x22] @ '' is a direct match for the goal.''),
                   selectedLink = JString (the directLink)\<rparr>
         else
           (case loadModel env of
              Inl e \<Rightarrow> Inl e
            | Inr None \<Rightarrow> Inl ''Model not loaded''
            | Inr (Some model) \<Rightarrow>
                (let (candidates, isBacktracking) = candidateFilter currentPage history
                 in if candidates = []
                    then Inr \<lparr>reasoning = JString ''No valid links found.'',
                              selectedLink =
                                js_or (first_link (links currentPage)) (JString ''Main_Page'')\<rparr>
                    else
                      (case embedText model targetPage of
                         Inl e \<Rightarrow> Inl e
                       | Inr targetVec \<Rightarrow>
                           (case embedList model candidates of
                              Inl e \<Rightarrow> Inl e
                            | Inr embeddings \<Rightarrow>
                                (let hiddenSize = dims1 embeddings;
                                     (maxScore, bestLink) =
                                       selectBest candidates
                                         (dotProduct targetVec (data embeddings) hiddenSize);
                                     reasoningText =
                                       ''BERT Similarity Score: '' @ toFixed3 env maxScore
                                       @ ''. '' @ [CHR 0x22] @ bestLink @ [CHR 0x22]
                                       @ '' is semantically closest to '' @ [CHR 0x22]
                                       @ targetPage @ [CHR 0x22] @ ''.''
                                       @ (if isBacktracking
                                          then '' (Note: All unique links were previously visited; forced to loop).''
                                          else '' (Visited pages excluded to prevent loops).'')
                                 in Inr \<lparr>reasoning = JString reasoningText,
                                         selectedLink = JString bestLink\<rparr>))))))"

section \<open>services/geminiService.ts, services/openaiService.ts, services/claudeService.ts\<close>

text \<open>
  What the remote solvers take from outside: \<open>JSON.parse\<close> (\<open>None\<close> when it throws), the
  message the engine gives a \<open>TypeError\<close>, the keys of \<open>process.env\<close>, and the outcome of
  the hosted-model call of each service. Of the reply the services read one text:
  \<open>response.text\<close>, the \<open>message.content\<close> of each choice, and the \<open>text\<close> of each
  content block (\<open>None\<close> where it is \<open>undefined\<close> or \<open>null\<close>). The prompt is not
  modelled.
\<close>

record RemoteEnv =
  JSON_parse :: "string \<Rightarrow> jsvalue option"
  typeErrorMessage :: string
  env_API_KEY :: "string option"
  env_VITE_OPENAI_API_KEY :: "string option"
  env_VITE_ANTHROPIC_API_KEY :: "string option"
  generateContent :: "(string option) promise"
  chat_completions_create :: "(string option list) promise"
  messages_create :: "(string option list) promise"

text \<open>\<open>a || b\<close> where \<open>a\<close> is a string or \<open>undefined\<close> and \<open>b\<close> a string.\<close>

definition str_or :: "string option \<Rightarrow> string \<Rightarrow> string" where
  "str_or a b = (case a of None \<Rightarrow> b | Some s \<Rightarrow> if s = [] then b else s)"

text \<open>
  Reading \<open>data.reasoning\<close> or \<open>data.selectedLink\<close>: a \<open>TypeError\<close> (\<open>None\<close>) on
  \<open>null\<close> and \<open>undefined\<close>, the property of an object, \<open>undefined\<close> on anything else.
\<close>

fun getProp :: "jsvalue \<Rightarrow> string \<Rightarrow> jsvalue option" where
  "getProp JUndefined k = None"
| "getProp JNull k = None"
| "getProp (JObject kvs) k = Some (case map_of kvs k of None \<Rightarrow> JUndefined | Some v \<Rightarrow> v)"
| "getProp _ k = Some JUndefined"

text \<open>The value the \<open>catch\<close> block of each service returns.\<close>

definition parseFailure :: "WikiPage \<Rightarrow> AIResponse" where
  "parseFailure currentPage =
     \<lparr>reasoning = JString ''Failed to parse AI response. Picking first link.'',
      selectedLink = first_link (links currentPage)\<rparr>"

text \<open>
  The \<open>try\<close> block of each service from \<open>JSON.parse\<close> on; the argument is the outcome of
  \<open>JSON.parse\<close>.
\<close>

definition readResponse :: "WikiPage \<Rightarrow> jsvalue option \<Rightarrow> AIResponse" where
  "readResponse currentPage parsed =
     (case parsed of
        None \<Rightarrow> parseFailure currentPage
      | Some dat \<Rightarrow>
          (case getProp dat ''reasoning'' of
             None \<Rightarrow> parseFailure currentPage
           | Some r \<Rightarrow>
               (case getProp dat ''selectedLink'' of
                  None \<Rightarrow> parseFailure currentPage
                | Some s \<Rightarrow>
                    \<lparr>reasoning = js_or r (JString ''No reasoning provided.''),
                     selectedLink = js_or s (first_link (links currentPage))\<rparr>)))"

definition gemini_getNextMove ::
    "RemoteEnv \<Rightarrow> WikiPage \<Rightarrow> string \<Rightarrow> string list \<Rightarrow> string option \<Rightarrow> string option
      \<Rightarrow> AIResponse promise" where
  "gemini_getNextMove env currentPage targetPage history apiKey modelName =
     (let key = str_or apiKey (str_or (env_API_KEY env) [])
      in if key = [] then Inl ''API Key is missing. Please provide it in the settings.''
         else
           (case generateContent env of
              Inl e \<Rightarrow> Inl e
            | Inr response_text \<Rightarrow>
                Inr (readResponse currentPage (JSON_parse env (str_or response_text ''{}'')))))"

definition openai_getNextMove ::
    "RemoteEnv \<Rightarrow> WikiPage \<Rightarrow> string \<Rightarrow> string list \<Rightarrow> string option \<Rightarrow> string option
      \<Rightarrow> AIResponse promise" where
  "openai_getNextMove env currentPage targetPage history apiKey modelName =
     (let key = str_or apiKey (str_or (env_VITE_OPENAI_API_KEY env) [])
      in if key = [] then Inl ''API Key is missing. Please provide it in the settings.''
         else
           (case chat_completions_create env of
              Inl e \<Rightarrow> Inl e
            | Inr choices \<Rightarrow>
                (case choices of
                   [] \<Rightarrow> Inr (parseFailure currentPage)
                 | content # _ \<Rightarrow>
                     Inr (readResponse currentPage (JSON_parse env (str_or content ''{}''))))))"

text \<open>
  \<open>s.replace(/pat\s*/g, '')\<close> for a literal, non-empty \<open>pat\<close>: every occurrence of
  \<open>pat\<close>, with the white space after it, is removed, scanning from the left.
\<close>

function stripAll :: "string \<Rightarrow> string \<Rightarrow> string" where
  "stripAll pat s =
     (if s = [] then []
      else if pat \<noteq> [] \<and> take (length pat) s = pat
           then stripAll pat (dropWhile isSpace (drop (length pat) s))
           else hd s # stripAll pat (tl s))"
  by pat_completeness auto
termination
proof (relation "measure (\<lambda>(pat, s). length s)")
  show "wf (measure (\<lambda>(pat, s). length s))"
    by simp
next
  fix pat s :: string
  assume "s \<noteq> []" and "pat \<noteq> [] \<and> take (length pat) s = pat"
  then have "length (drop (length pat) s) < length s"
    by simp
  moreover have "length (dropWhile isSpace (drop (length pat) s)) \<le> length (drop (length pat) s)"
    by (rule length_dropWhile_le)
  ultimately show "((pat, dropWhile isSpace (drop (length pat) s)), (pat, s))
      \<in> measure (\<lambda>(pat, s). length s)"
    by simp
next
  fix pat s :: string
  assume "s \<noteq> []"
  then show "((pat, tl s), (pat, s)) \<in> measure (\<lambda>(pat, s). length s)"
    by simp
qed

text \<open>
  \<open>s.match(/\{[\s\S]*\}/)\<close>: from the first opening brace to the last closing brace after
  it, if there is one.
\<close>

definition matchBraces :: "string \<Rightarrow> string option" where
  "matchBraces s =
     (let fromOpen = dropWhile (\<lambda>c. c \<noteq> CHR 0x7B) s;
          m = rev (dropWhile (\<lambda>c. c \<noteq> CHR 0x7D) (rev fromOpen))
      in if m = [] then None else Some m)"

text \<open>The text handed to \<open>JSON.parse\<close> by the Claude service, before \<open>|| '{}'\<close>.\<close>

definition claude_content :: "string \<Rightarrow> string" where
  "claude_content text =
     (let content = trim (stripAll [CHR 0x60, CHR 0x60, CHR 0x60]
                            (stripAll ([CHR 0x60, CHR 0x60, CHR 0x60] @ ''json'') text))
      in case matchBraces content of None \<Rightarrow> content | Some m \<Rightarrow> m)"

text \<open>
  The \<open>catch\<close> block of the Claude service reads \<open>message.content[0].text\<close> again for its
  log line, which raises once more when the reply has no content block.
\<close>

definition claude_getNextMove ::
    "RemoteEnv \<Rightarrow> WikiPage \<Rightarrow> string \<Rightarrow> string list \<Rightarrow> string option \<Rightarrow> string option
      \<Rightarrow> AIResponse promise" where
  "claude_getNextMove env currentPage targetPage history apiKey modelName =
     (let key = str_or apiKey (str_or (env_VITE_ANTHROPIC_API_KEY env) [])
      in if key = [] then Inl ''API Key is missing. Please provide it in the settings.''
         else
           (case messages_create env of
              Inl e \<Rightarrow> Inl e
            | Inr blocks \<Rightarrow>
                (case blocks of
                   [] \<Rightarrow> Inl (typeErrorMessage env)
                 | None # _ \<Rightarrow> Inr (parseFailure currentPage)
                 | Some text # _ \<Rightarrow>
                     Inr (readResponse currentPage
                            (JSON_parse env (str_or (Some (claude_content text)) ''{}''))))))"

section \<open>App.tsx\<close>

definition normalizeTitle :: "string \<Rightarrow> string" where
  "normalizeTitle t = toLowerCase (map (\<lambda>c. if c = CHR '' '' then CHR ''_'' else c) (trim t))"

definition maxSteps :: nat where
  "maxSteps = 40"

text \<open>
  The state hooks of the component that the run reads or writes. The field \<open>curSolver\<close> is
  the hook \<open>solver\<close>. The field \<open>mounted\<close> is not a hook: it records whether the component
  is still on the page, which it no longer is once an effect has thrown.
\<close>

record AppState =
  startPage :: string
  targetPage :: string
  currentWikiPage :: "WikiPage option"
  history :: "GameStep list"
  status :: GameStatus
  error :: "string option"
  highlightedLink :: "jsvalue option"
  curSolver :: SolverType
  isModelLoading :: bool
  isModelReady :: bool
  userApiKey :: string
  selectedModel :: string
  mounted :: bool

definition initialState :: AppState where
  "initialState =
     \<lparr>startPage = ''Apollo 11'', targetPage = ''Cheese'', currentWikiPage = None, history = [],
      status = IDLE, error = None, highlightedLink = None, curSolver = GEMINI,
      isModelLoading = False, isModelReady = False,
      userApiKey = [], selectedModel = ''gemini-2.0-flash-exp'', mounted = True\<rparr>"

text \<open>
  What one call of \<open>executeMove\<close> takes from outside: the environments of the solvers, the
  page fetch, the clocks, and whether the rendered page holds an anchor with a title or a
  text. The three click flags are read by the function \<open>executeMove\<close> below only, which
  describes a call that runs alone: they say whether the pause button is clicked once
  while the solver call, the pacing delay, or the page fetch is pending.
\<close>

record World =
  vectorEnv :: VectorEnv
  remoteEnv :: RemoteEnv
  fetchPageData :: "string \<Rightarrow> WikiPage promise"
  startTime :: real
  endTime :: real
  Date_now :: int
  labelledAnchor :: bool
  clickDuringSolver :: bool
  clickDuringDelay :: bool
  clickDuringFetch :: bool

text \<open>The pause button: \<open>setStatus(prev => prev === PAUSED ? PLAYING : PAUSED)\<close>.\<close>

definition togglePause :: "AppState \<Rightarrow> AppState" where
  "togglePause st = st\<lparr>status := (if status st = PAUSED then PLAYING else PAUSED)\<rparr>"

definition clickIf :: "bool \<Rightarrow> AppState \<Rightarrow> AppState" where
  "clickIf b st = (if b then togglePause st else st)"

text \<open>The \<open>catch\<close> block of \<open>executeMove\<close>.\<close>

definition catchError :: "string \<Rightarrow> AppState \<Rightarrow> AppState" where
  "catchError msg st = st\<lparr>error := Some (''Solver Error: '' @ msg), status := FAILED\<rparr>"

text \<open>The choice of the service, lines 247 to 278.\<close>

definition callSolver :: "World \<Rightarrow> AppState \<Rightarrow> WikiPage \<Rightarrow> AIResponse promise" where
  "callSolver w st currentPage =
     (let titles = map pageTitle (history st)
      in if curSolver st = VECTORS
         then vector_getNextMove (vectorEnv w) currentPage (targetPage st) titles
         else if curSolver st = OPENAI
         then openai_getNextMove (remoteEnv w) currentPage (targetPage st) titles
                (Some (userApiKey st)) (Some (selectedModel st))
         else if curSolver st = CLAUDE
         then claude_getNextMove (remoteEnv w) currentPage (targetPage st) titles
                (Some (userApiKey st)) (Some (selectedModel st))
         else gemini_getNextMove (remoteEnv w) currentPage (targetPage st) titles
                (Some (userApiKey st)) (Some (selectedModel st)))"

text \<open>
  The highlight effect, lines 336 to 355, runs after a render in which \<open>highlightedLink\<close>
  or \<open>currentWikiPage\<close> has changed. When the highlighted link is truthy and the page
  content is rendered, it calls \<open>normalizeTitle\<close> on the link for the first anchor that
  has a title or a text. On a link that is not a string that call raises a \<open>TypeError\<close>,
  outside every \<open>try\<close>, and the component is unmounted.
\<close>

definition highlightThrows :: "World \<Rightarrow> AppState \<Rightarrow> bool" where
  "highlightThrows w st =
     (case highlightedLink st of
        None \<Rightarrow> False
      | Some (JString s) \<Rightarrow> False
      | Some v \<Rightarrow> truthy v \<and> currentWikiPage st \<noteq> None \<and> labelledAnchor w)"

text \<open>
  Whether \<open>setHighlightedLink(v)\<close> changes the hook: a parsed array or object is a new
  value each time, anything else is compared with the value held.
\<close>

definition highlightChanged :: "jsvalue option \<Rightarrow> jsvalue \<Rightarrow> bool" where
  "highlightChanged held v =
     (case v of JArray xs \<Rightarrow> True | JObject kvs \<Rightarrow> True | _ \<Rightarrow> held \<noteq> Some v)"

text \<open>Lines 284 to 294: the highlight and the new step, appended to the history as it is.\<close>

definition appendStep :: "World \<Rightarrow> WikiPage \<Rightarrow> SolverType \<Rightarrow> AIResponse \<Rightarrow> AppState \<Rightarrow> AppState" where
  "appendStep w currentPage sv mv st =
     (let st1 = st\<lparr>highlightedLink := Some (selectedLink mv)\<rparr>;
          newStep = \<lparr>pageTitle = title currentPage, thought = reasoning mv,
                     timestamp = Date_now w, duration = endTime w - startTime w,
                     solver = sv\<rparr>
      in st1\<lparr>history := history st1 @ [newStep]\<rparr>)"

text \<open>
  The destination fetch and what follows it, lines 299 to 320; \<open>st\<close> is the state after
  the pacing delay. \<open>statusRef.current\<close> is the status of that state.
\<close>

definition fetchAndApply :: "World \<Rightarrow> string \<Rightarrow> string \<Rightarrow> AppState \<Rightarrow> AppState" where
  "fetchAndApply w targetNorm link st =
     (if normalizeTitle link = targetNorm
      then (case fetchPageData w link of
              Inl msg \<Rightarrow> catchError msg (clickIf (clickDuringFetch w) st)
            | Inr finalPage \<Rightarrow>
                (clickIf (clickDuringFetch w) st)
                  \<lparr>currentWikiPage := Some finalPage, highlightedLink := None, status := SUCCESS\<rparr>)
      else if status st = PAUSED
      then (case fetchPageData w link of
              Inl msg \<Rightarrow> catchError msg (clickIf (clickDuringFetch w) st)
            | Inr nextPage \<Rightarrow>
                (clickIf (clickDuringFetch w) st)
                  \<lparr>currentWikiPage := Some nextPage, highlightedLink := None\<rparr>)
      else (case fetchPageData w link of
              Inl msg \<Rightarrow> catchError msg (clickIf (clickDuringFetch w) st)
            | Inr nextPage \<Rightarrow>
                (clickIf (clickDuringFetch w) st)
                  \<lparr>currentWikiPage := Some nextPage, highlightedLink := None, status := PLAYING\<rparr>))"

text \<open>
  The \<open>try\<close> block from the return of the solver on, lines 280 to 320; \<open>st\<close> is the state
  when the solver call settles and \<open>sv\<close> the solver the call was made with. After the
  pacing delay \<open>normalizeTitle\<close> raises a \<open>TypeError\<close> on a link that is not a string,
  which the \<open>catch\<close> block takes, unless the highlight effect has thrown before.
\<close>

definition commitMove ::
    "World \<Rightarrow> WikiPage \<Rightarrow> string \<Rightarrow> SolverType \<Rightarrow> AIResponse promise \<Rightarrow> AppState \<Rightarrow> AppState" where
  "commitMove w currentPage targetNorm sv move st =
     (case move of
        Inl msg \<Rightarrow> catchError msg st
      | Inr mv \<Rightarrow>
          (let st2 = appendStep w currentPage sv mv st
           in if highlightChanged (highlightedLink st) (selectedLink mv) \<and> highlightThrows w st2
              then st2\<lparr>mounted := False\<rparr>
              else
                (let st3 = clickIf (clickDuringDelay w) st2
                 in case selectedLink mv of
                      JString link \<Rightarrow> fetchAndApply w targetNorm link st3
                    | _ \<Rightarrow> catchError (typeErrorMessage (remoteEnv w)) st3)))"

text \<open>
  One call of \<open>executeMove\<close> that runs alone from its start to its end, with no other
  event than the pause clicks of the world in between.
\<close>

definition executeMove :: "World \<Rightarrow> AppState \<Rightarrow> AppState" where
  "executeMove w st =
     (case currentWikiPage st of
        None \<Rightarrow> st
      | Some currentPage \<Rightarrow>
          if status st \<noteq> PLAYING then st
          else
            (let currentNorm = normalizeTitle (title currentPage);
                 targetNorm = normalizeTitle (targetPage st)
             in if currentNorm = targetNorm then st\<lparr>status := SUCCESS\<rparr>
                else if length (history st) \<ge> maxSteps
                then st\<lparr>status := FAILED,
                         error := Some ''Maximum attempts reached without finding the target.''\<rparr>
                else commitMove w currentPage targetNorm (curSolver st)
                       (callSolver w st currentPage)
                       (clickIf (clickDuringSolver w) (st\<lparr>status := LOADING_STEP\<rparr>))))"

definition resetGame :: "AppState \<Rightarrow> AppState" where
  "resetGame st =
     st\<lparr>status := IDLE, history := [], currentWikiPage := None, error := None,
        highlightedLink := None\<rparr>"

text \<open>The visibility handler: a hidden tab pauses a run that is playing.\<close>

definition handleVisibilityChange :: "AppState \<Rightarrow> AppState" where
  "handleVisibilityChange st = (if status st = PLAYING then st\<lparr>status := PAUSED\<rparr> else st)"

text \<open>
  The effect on \<open>solver\<close> and \<open>isModelReady\<close>, lines 154 to 171: it runs when one of the
  two changes, starts loading the model when the solver is \<open>VECTORS\<close> and the model is not
  ready, sets the default model of the solver and empties the key.
\<close>

definition solverEffect :: "AppState \<Rightarrow> AppState" where
  "solverEffect st =
     (let st1 = (if curSolver st = VECTORS \<and> \<not> isModelReady st
                 then st\<lparr>isModelLoading := True\<rparr> else st);
          st2 = (if curSolver st = GEMINI then st1\<lparr>selectedModel := ''gemini-2.0-flash-exp''\<rparr>
                 else if curSolver st = OPENAI then st1\<lparr>selectedModel := ''gpt-4o-mini''\<rparr>
                 else if curSolver st = CLAUDE
                 then st1\<lparr>selectedModel := ''claude-haiku-4-5-20251001''\<rparr>
                 else st1)
      in st2\<lparr>userApiKey := []\<rparr>)"

text \<open>The options of the model selection, by solver.\<close>

definition modelOptions :: "SolverType \<Rightarrow> string list" where
  "modelOptions sv =
     (if sv = GEMINI
      then [''gemini-2.0-flash-exp'', ''gemini-1.5-flash'', ''gemini-1.5-pro'',
            ''gemini-1.5-flash-8b'']
      else if sv = OPENAI then [''gpt-4o-mini'', ''gpt-4o'', ''gpt-5-mini'']
      else if sv = CLAUDE
      then [''claude-sonnet-4-5-20250929'', ''claude-sonnet-4-20250514'',
            ''claude-haiku-4-5-20251001'']
      else [])"

subsection \<open>Runs\<close>

text \<open>
  The asynchronous handlers run in pieces: each \<open>await\<close> leaves a pending call behind,
  which goes on when what it waits for settles, and any event of the component can land in
  between. A pending call holds what its closure captured. The solver call is made with
  the state the call of \<open>executeMove\<close> started in, so its outcome is fixed then.
\<close>

datatype FetchKind = FinalFetch | PausedFetch | NextFetch

datatype Pending =
    AwaitStart World string
  | AwaitSolver World WikiPage string SolverType "AIResponse promise"
  | AwaitDelay World string jsvalue
  | AwaitFetch World string FetchKind
  | AwaitRandomStart "string promise"
  | AwaitRandomTarget "string promise"

text \<open>\<open>handleStartGame\<close> up to its \<open>await\<close>, lines 202 to 207.\<close>

definition beginStart :: "World \<Rightarrow> AppState \<Rightarrow> AppState \<times> Pending option" where
  "beginStart w st =
     (st\<lparr>status := STARTING, error := None, history := [], highlightedLink := None\<rparr>,
      Some (AwaitStart w (startPage st)))"

text \<open>\<open>executeMove\<close> up to its first \<open>await\<close>, lines 225 to 278.\<close>

definition beginMove :: "World \<Rightarrow> AppState \<Rightarrow> AppState \<times> Pending option" where
  "beginMove w st =
     (case currentWikiPage st of
        None \<Rightarrow> (st, None)
      | Some currentPage \<Rightarrow>
          if status st \<noteq> PLAYING then (st, None)
          else
            (let currentNorm = normalizeTitle (title currentPage);
                 targetNorm = normalizeTitle (targetPage st)
             in if currentNorm = targetNorm then (st\<lparr>status := SUCCESS\<rparr>, None)
                else if length (history st) \<ge> maxSteps
                then (st\<lparr>status := FAILED,
                          error := Some ''Maximum attempts reached without finding the target.''\<rparr>,
                      None)
                else (st\<lparr>status := LOADING_STEP\<rparr>,
                      Some (AwaitSolver w currentPage targetNorm (curSolver st)
                              (callSolver w st currentPage)))))"

text \<open>What follows the destination fetch, by the branch that started it.\<close>

definition applyFetched :: "FetchKind \<Rightarrow> WikiPage \<Rightarrow> AppState \<Rightarrow> AppState" where
  "applyFetched kind page st =
     (case kind of
        FinalFetch \<Rightarrow>
          st\<lparr>currentWikiPage := Some page, highlightedLink := None, status := SUCCESS\<rparr>
      | PausedFetch \<Rightarrow> st\<lparr>currentWikiPage := Some page, highlightedLink := None\<rparr>
      | NextFetch \<Rightarrow>
          st\<lparr>currentWikiPage := Some page, highlightedLink := None, status := PLAYING\<rparr>)"

text \<open>
  A pending call goes on, in the state of that moment, up to its next \<open>await\<close> or its end.
\<close>

fun settle :: "Pending \<Rightarrow> AppState \<Rightarrow> AppState \<times> Pending option" where
  "settle (AwaitStart w t) st =
     (case fetchPageData w t of
        Inr page \<Rightarrow>
          (let st1 = st\<lparr>currentWikiPage := Some page, status := PLAYING\<rparr>
           in if highlightThrows w st1 then (st1\<lparr>mounted := False\<rparr>, None) else (st1, None))
      | Inl msg \<Rightarrow> (st\<lparr>error := Some (''Failed to start: '' @ msg), status := IDLE\<rparr>, None))"
| "settle (AwaitSolver w currentPage targetNorm sv move) st =
     (case move of
        Inl msg \<Rightarrow> (catchError msg st, None)
      | Inr mv \<Rightarrow>
          (let st2 = appendStep w currentPage sv mv st
           in if highlightChanged (highlightedLink st) (selectedLink mv) \<and> highlightThrows w st2
              then (st2\<lparr>mounted := False\<rparr>, None)
              else (st2, Some (AwaitDelay w targetNorm (selectedLink mv)))))"
| "settle (AwaitDelay w targetNorm v) st =
     (case v of
        JString link \<Rightarrow>
          (st, Some (AwaitFetch w link
                       (if normalizeTitle link = targetNorm then FinalFetch
                        else if status st = PAUSED then PausedFetch
                        else NextFetch)))
      | _ \<Rightarrow> (catchError (typeErrorMessage (remoteEnv w)) st, None))"
| "settle (AwaitFetch w link kind) st =
     (case fetchPageData w link of
        Inl msg \<Rightarrow> (catchError msg st, None)
      | Inr page \<Rightarrow> (applyFetched kind page st, None))"
| "settle (AwaitRandomStart r) st =
     (case r of Inl msg \<Rightarrow> (st, None) | Inr t \<Rightarrow> (st\<lparr>startPage := t\<rparr>, None))"
| "settle (AwaitRandomTarget r) st =
     (case r of Inl msg \<Rightarrow> (st, None) | Inr t \<Rightarrow> (st\<lparr>targetPage := t\<rparr>, None))"

record Config =
  app :: AppState
  pending :: "Pending list"

definition initialConfig :: Config where
  "initialConfig = \<lparr>app = initialState, pending = []\<rparr>"

definition launch :: "AppState \<times> Pending option \<Rightarrow> Config \<Rightarrow> Config" where
  "launch r c =
     \<lparr>app = fst r, pending = pending c @ (case snd r of None \<Rightarrow> [] | Some p \<Rightarrow> [p])\<rparr>"

definition settleAt :: "nat \<Rightarrow> Config \<Rightarrow> Config" where
  "settleAt k c =
     (if k < length (pending c)
      then (let r = settle (pending c ! k) (app c)
            in \<lparr>app = fst r,
                pending = (case snd r of
                             None \<Rightarrow> take k (pending c) @ drop (Suc k) (pending c)
                           | Some p \<Rightarrow> (pending c)[k := p])\<rparr>)
      else c)"

definition onApp :: "(AppState \<Rightarrow> AppState) \<Rightarrow> Config \<Rightarrow> Config" where
  "onApp f c = c\<lparr>app := f (app c)\<rparr>"

text \<open>
  The events of a run. The settings panel, with the start button, the solver buttons and
  the inputs, is rendered in status \<open>IDLE\<close> only, the key and model inputs for a remote
  solver only; the pause and reset buttons are rendered in every other status. The timer
  effect holds a timer while the status is \<open>PLAYING\<close>, which calls \<open>executeMove\<close>.
  \<open>Settle k\<close> lets the pending call at position \<open>k\<close> go on. A page reload, which the
  five-minute timer also does, starts afresh. An unmounted component takes no event but
  the reload.
\<close>

datatype Event =
    StartClick World
  | Tick World
  | Settle nat
  | PauseClick
  | ResetClick
  | TabHidden
  | SetStartPage string
  | SetTargetPage string
  | RandomStartClick "string promise"
  | RandomTargetClick "string promise"
  | SetSolver SolverType
  | ModelLoaded
  | SetUserApiKey string
  | SetSelectedModel string
  | Reload

fun handleEvent :: "Event \<Rightarrow> Config \<Rightarrow> Config" where
  "handleEvent (StartClick w) c =
     (if status (app c) = IDLE then launch (beginStart w (app c)) c else c)"
| "handleEvent (Tick w) c =
     (if status (app c) = PLAYING then launch (beginMove w (app c)) c else c)"
| "handleEvent (Settle k) c = settleAt k c"
| "handleEvent PauseClick c = (if status (app c) = IDLE then c else onApp togglePause c)"
| "handleEvent ResetClick c = (if status (app c) = IDLE then c else onApp resetGame c)"
| "handleEvent TabHidden c = onApp handleVisibilityChange c"
| "handleEvent (SetStartPage s) c =
     (if status (app c) = IDLE then onApp (\<lambda>st. st\<lparr>startPage := s\<rparr>) c else c)"
| "handleEvent (SetTargetPage s) c =
     (if status (app c) = IDLE then onApp (\<lambda>st. st\<lparr>targetPage := s\<rparr>) c else c)"
| "handleEvent (RandomStartClick r) c =
     (if status (app c) = IDLE then launch (app c, Some (AwaitRandomStart r)) c else c)"
| "handleEvent (RandomTargetClick r) c =
     (if status (app c) = IDLE then launch (app c, Some (AwaitRandomTarget r)) c else c)"
| "handleEvent (SetSolver sv) c =
     (if status (app c) = IDLE \<and> sv \<noteq> curSolver (app c)
         \<and> \<not> (sv = VECTORS \<and> isModelLoading (app c))
      then onApp (\<lambda>st. solverEffect (st\<lparr>curSolver := sv\<rparr>)) c else c)"
| "handleEvent ModelLoaded c =
     (if isModelLoading (app c)
      then onApp (\<lambda>st. if isModelReady st then st\<lparr>isModelLoading := False\<rparr>
                        else solverEffect (st\<lparr>isModelLoading := False, isModelReady := True\<rparr>)) c
      else c)"
| "handleEvent (SetUserApiKey k) c =
     (if status (app c) = IDLE \<and> curSolver (app c) \<noteq> VECTORS
      then onApp (\<lambda>st. st\<lparr>userApiKey := k\<rparr>) c else c)"
| "handleEvent (SetSelectedModel m) c =
     (if status (app c) = IDLE \<and> curSolver (app c) \<noteq> VECTORS
         \<and> m \<in> set (modelOptions (curSolver (app c)))
      then onApp (\<lambda>st. st\<lparr>selectedModel := m\<rparr>) c else c)"
| "handleEvent Reload c = initialConfig"

definition applyEvent :: "Event \<Rightarrow> Config \<Rightarrow> Config" where
  "applyEvent ev c = (if mounted (app c) \<or> ev = Reload then handleEvent ev c else c)"

definition run :: "Event list \<Rightarrow> Config" where
  "run evs = fold applyEvent evs initialConfig"

text \<open>The pause click of a world, as an event sequence.\<close>

definition clicks :: "bool \<Rightarrow> Event list" where
  "clicks b = (if b then [PauseClick] else [])"

section \<open>Concrete inputs\<close>

text \<open>A loaded extractor with one-dimensional embeddings, and pages, replies, worlds and
  event sequences on which the definitions are evaluated below.\<close>

definition demoExtractor :: Extractor where
  "demoExtractor =
     \<lparr>embedText = (\<lambda>t. Inr [Num 1]),
      embedList = (\<lambda>cs. Inr \<lparr>dims1 = 1, data = [Num 1, Num 0]\<rparr>)\<rparr>"

definition demoVectorEnv :: VectorEnv where
  "demoVectorEnv = \<lparr>loadModel = Inr (Some demoExtractor), toFixed3 = (\<lambda>x. ''1.000'')\<rparr>"



definition echoPage :: "string \<Rightarrow> WikiPage" where
  "echoPage t = \<lparr>title = t, summary = [], links = [''NASA'', ''Moon''], page_extract = None\<rparr>"

definition replyRemoteEnv :: "string \<Rightarrow> RemoteEnv" where
  "replyRemoteEnv link =
     \<lparr>JSON_parse = (\<lambda>s. Some (JObject [(''reasoning'', JString ''closest''),
                                         (''selectedLink'', JString link)])),
      typeErrorMessage = ''TypeError'',
      env_API_KEY = Some ''key'', env_VITE_OPENAI_API_KEY = None,
      env_VITE_ANTHROPIC_API_KEY = None,
      generateContent = Inr (Some ''reply''),
      chat_completions_create = Inr [], messages_create = Inr []\<rparr>"

definition demoWorld :: "string \<Rightarrow> World" where
  "demoWorld link =
     \<lparr>vectorEnv = demoVectorEnv, remoteEnv = replyRemoteEnv link,
      fetchPageData = (\<lambda>t. Inr (echoPage t)),
      startTime = 0, endTime = 5, Date_now = 1000, labelledAnchor = True,
      clickDuringSolver = False, clickDuringDelay = False, clickDuringFetch = False\<rparr>"

definition demoStep :: GameStep where
  "demoStep = \<lparr>pageTitle = ''Apollo 11'', thought = JString ''closest'', timestamp = 1000,
                duration = 5, solver = GEMINI\<rparr>"

definition playingAt :: "string \<Rightarrow> AppState" where
  "playingAt t = initialState\<lparr>currentWikiPage := Some (echoPage t), status := PLAYING\<rparr>"

text \<open>
  The events of one whole step with nothing in between, and a run in which the solver
  sends the agent back to the start page 39 times, after which the pause button is clicked
  twice while the solver call of step 40 is pending, so that the timer starts a second
  call before the first one has appended its step.
\<close>

definition stepEvents :: "World \<Rightarrow> Event list" where
  "stepEvents w = [Tick w, Settle 0, Settle 0, Settle 0]"

definition apolloWorld :: World where
  "apolloWorld = demoWorld ''Apollo 11''"

definition overlapEvents :: "Event list" where
  "overlapEvents =
     [Tick apolloWorld, PauseClick, PauseClick, Tick apolloWorld,
      Settle 0, Settle 0, Settle 0, Settle 0, Settle 0, Settle 0]"

definition raceEvents :: "Event list" where
  "raceEvents =
     [StartClick apolloWorld, Settle 0]
     @ concat (replicate 39 (stepEvents apolloWorld))
     @ overlapEvents"

text \<open>The state of that run after \<open>n\<close> whole steps, and its pending solver call.\<close>

definition atStep :: "nat \<Rightarrow> AppState" where
  "atStep n = (playingAt ''Apollo 11'')\<lparr>history := replicate n demoStep\<rparr>"

definition apolloCall :: Pending where
  "apolloCall =
     AwaitSolver apolloWorld (echoPage ''Apollo 11'') ''cheese'' GEMINI
       (Inr \<lparr>reasoning = JString ''closest'', selectedLink = JString ''Apollo 11''\<rparr>)"

section \<open>Evaluation\<close>

lemmas string_eval = toLowerCase_def toLowerChar_def normalizeTitle_def trim_def isSpace_def


lemma normalize_apollo: "normalizeTitle ''Apollo 11'' = ''apollo_11''"
  by (simp add: string_eval)
lemma normalize_cheese: "normalizeTitle ''Cheese'' = ''cheese''"
  by (simp add: string_eval)

lemma demoWorld_fields:
  "fetchPageData (demoWorld l) t = Inr (echoPage t)"
  "Date_now (demoWorld l) = 1000" "startTime (demoWorld l) = 0" "endTime (demoWorld l) = 5"
  "labelledAnchor (demoWorld l) = True"
  by (simp_all add: demoWorld_def)

lemma demoWorld_solver:
  assumes "curSolver st = GEMINI" and "l \<noteq> []"
  shows "callSolver (demoWorld l) st p =
           Inr \<lparr>reasoning = JString ''closest'', selectedLink = JString l\<rparr>"
  using assms
  by (simp add: callSolver_def gemini_getNextMove_def readResponse_def str_or_def js_or_def
      demoWorld_def replyRemoteEnv_def)


section \<open>The similarity selection\<close>

lemma selectBest_step_member:
  assumes "\<forall>i \<in> set idxs. i < length candidates" and "b \<in> set candidates"
  shows "snd (fold (\<lambda>i (maxScore, bestLink).
             if js_gt (dotOf i) maxScore then (dotOf i, candidates ! i) else (maxScore, bestLink))
          idxs (m, b)) \<in> set candidates"
  using assms
proof (induction idxs arbitrary: m b)
  case Nil
  then show ?case by simp
next
  case (Cons i idxs)
  then show ?case by (cases "js_gt (dotOf i) m") simp_all
qed

lemma selectBest_all_NaN:
  "fold (\<lambda>i (maxScore, bestLink).
           if js_gt NaN maxScore then (NaN, candidates ! i) else (maxScore, bestLink))
        idxs (m, b) = (m, b)"
  by (induction idxs) simp_all

text \<open>
  C10. On a non-empty candidate list the selection loop returns a member of the list,
  whatever the scores are; when every score is \<open>NaN\<close> it returns the first candidate
  with the floor score \<open>-2\<close>, the values the loop starts from.
\<close>

theorem selectBest_in_candidates:
  assumes "candidates \<noteq> []"
  shows "snd (selectBest candidates dotOf) \<in> set candidates
       \<and> selectBest candidates (\<lambda>i. NaN) = (Num (- 2), candidates ! 0)"
proof -
  have "candidates ! 0 \<in> set candidates"
    using assms by simp
  then have "snd (selectBest candidates dotOf) \<in> set candidates"
    unfolding selectBest_def by (intro selectBest_step_member) simp_all
  moreover have "selectBest candidates (\<lambda>i. NaN) = (Num (- 2), candidates ! 0)"
    unfolding selectBest_def by (rule selectBest_all_NaN)
  ultimately show ?thesis
    by simp
qed

theorem selectBest_in_candidates_witness:
  "snd (selectBest [''B'', ''C''] (\<lambda>i. if i = 0 then NaN else Num (1 / 2))) = ''C''
   \<and> selectBest [''B'', ''C''] (\<lambda>i. NaN) = (Num (- 2), ''B'')"
proof -
  have ne: "[''B'', ''C''] \<noteq> ([] :: string list)"
    by simp
  have "snd (selectBest [''B'', ''C''] (\<lambda>i. if i = 0 then NaN else Num (1 / 2))) = ''C''"
    by (simp add: selectBest_def upt_rec)
  with selectBest_in_candidates [OF ne, of "\<lambda>i. NaN"] show ?thesis
    by simp
qed

lemma selectBest_prefix:
  assumes "\<forall>i<n. - 2 < score i" and "0 < n"
  shows "\<exists>k<n. fold (\<lambda>i (maxScore, bestLink).
                    if js_gt (Num (score i)) maxScore then (Num (score i), candidates ! i)
                    else (maxScore, bestLink))
                 [0..<n] (Num (- 2), candidates ! 0) = (Num (score k), candidates ! k)
              \<and> (\<forall>i<n. score i \<le> score k) \<and> (\<forall>i<k. score i < score k)"
  using assms
proof (induction n)
  case 0
  then show ?case by simp
next
  case (Suc n)
  let ?f = "\<lambda>i (maxScore, bestLink).
              if js_gt (Num (score i)) maxScore then (Num (score i), candidates ! i)
              else (maxScore, bestLink)"
  show ?case
  proof (cases "n = 0")
    case True
    have "- 2 < score 0" using Suc.prems by simp
    then show ?thesis
      using True by simp
  next
    case False
    then obtain k where k: "k < n"
        "fold ?f [0..<n] (Num (- 2), candidates ! 0) = (Num (score k), candidates ! k)"
        "\<forall>i<n. score i \<le> score k" "\<forall>i<k. score i < score k"
      using Suc by auto
    show ?thesis
    proof (cases "score n > score k")
      case True
      have "\<forall>i<Suc n. score i \<le> score n"
        using True k(3) by (auto simp: less_Suc_eq)
      moreover have "\<forall>i<n. score i < score n"
        using True k(3) by force
      ultimately show ?thesis
        using True k(2) by (intro exI [of _ n]) simp
    next
      case notgt: False
      have "\<forall>i<Suc n. score i \<le> score k"
        using notgt k(3) by (auto simp: less_Suc_eq)
      then show ?thesis
        using notgt k by (intro exI [of _ k]) simp
    qed
  qed
qed

text \<open>
  C6. On a non-empty candidate list whose scores are cosine similarities (numbers between
  \<open>-1\<close> and \<open>1\<close>), the selection returns the candidate with the greatest score, and among
  several with the greatest score the first in candidate order.
\<close>

theorem selectBest_first_greatest:
  assumes "candidates \<noteq> []"
    and "\<forall>i<length candidates. - 1 \<le> score i \<and> score i \<le> 1"
  shows "\<exists>k<length candidates.
           selectBest candidates (\<lambda>i. Num (score i)) = (Num (score k), candidates ! k)
           \<and> (\<forall>i<length candidates. score i \<le> score k)
           \<and> (\<forall>i<k. score i < score k)"
proof -
  have "\<forall>i<length candidates. - 2 < score i"
    using assms(2) by force
  moreover have "0 < length candidates"
    using assms(1) by simp
  ultimately show ?thesis
    unfolding selectBest_def by (rule selectBest_prefix)
qed

theorem selectBest_first_greatest_witness:
  "selectBest [''B'', ''C'', ''D''] (\<lambda>i. Num ([1/2, 1, 1] ! i)) = (Num 1, ''C'')"
proof -
  let ?score = "\<lambda>i. [1/2, 1, 1 :: real] ! i"
  have ne: "[''B'', ''C'', ''D''] \<noteq> ([] :: string list)" by simp
  have rng: "\<forall>i<length [''B'', ''C'', ''D'']. - 1 \<le> ?score i \<and> ?score i \<le> 1"
    by (simp add: less_Suc_eq nth_Cons')
  from selectBest_first_greatest [OF ne rng]
  obtain k where k: "k < length [''B'', ''C'', ''D'']"
      "selectBest [''B'', ''C'', ''D''] (\<lambda>i. Num (?score i)) = (Num (?score k), [''B'', ''C'', ''D''] ! k)"
      "\<forall>i<length [''B'', ''C'', ''D'']. ?score i \<le> ?score k" "\<forall>i<k. ?score i < ?score k"
    by blast
  from k(1) have "k = 0 \<or> k = 1 \<or> k = 2" by auto
  moreover have "k \<noteq> 0"
  proof
    assume "k = 0"
    moreover have "?score 1 \<le> ?score k" using k(3) [rule_format, of 1] by simp
    ultimately show False by simp
  qed
  moreover have "k \<noteq> 2"
  proof
    assume "k = 2"
    then have "?score 1 < ?score 2" using k(4) [rule_format, of 1] by simp
    then show False by simp
  qed
  ultimately have "k = 1" by blast
  with k(2) show ?thesis by simp
qed

section \<open>The candidate filter\<close>

text \<open>
  C3 as stated fails: the filter compares lower-cased titles only, so a link that differs
  from a visited title by a space against an underscore is kept, without fallback, although
  both have the same canonical form.
\<close>

theorem candidateFilter_canonical_counterexample:
  "candidateFilter \<lparr>title = ''Moon'', summary = [], links = [''Apollo 11''], page_extract = None\<rparr>
       [''Apollo_11'']
     = ([''Apollo 11''], False)
   \<and> normalizeTitle ''Apollo 11'' = normalizeTitle ''Apollo_11''"
  by (simp add: candidateFilter_def arrayFromSet_def string_eval)

text \<open>
  C3, amended. When the fallback is not used, the candidate list contains no link whose
  lower-cased form equals the lower-cased form of an entry of the history or of the title
  of the current page.
\<close>

theorem candidateFilter_excludes_visited:
  assumes "\<not> snd (candidateFilter p h)"
  shows "\<forall>l \<in> set (fst (candidateFilter p h)). \<forall>v \<in> set (h @ [title p]).
           toLowerCase l \<noteq> toLowerCase v"
proof (intro ballI)
  fix l v
  assume l: "l \<in> set (fst (candidateFilter p h))" and v: "v \<in> set (h @ [title p])"
  let ?visited = "set (map toLowerCase h) \<union> {toLowerCase (title p)}"
  let ?kept = "filter (\<lambda>l. toLowerCase l \<notin> ?visited) (arrayFromSet (links p))"
  have "?kept \<noteq> []"
    using assms by (simp add: candidateFilter_def Let_def)
  then have "fst (candidateFilter p h) = take 200 ?kept"
    by (simp add: candidateFilter_def Let_def)
  with l have "l \<in> set ?kept"
    by (auto dest: in_set_takeD)
  then have "toLowerCase l \<notin> ?visited"
    by simp
  moreover have "toLowerCase v \<in> ?visited"
    using v by auto
  ultimately show "toLowerCase l \<noteq> toLowerCase v"
    by metis
qed

theorem candidateFilter_excludes_visited_witness:
  "candidateFilter \<lparr>title = ''A'', summary = [], links = [''B'', ''C''], page_extract = None\<rparr> []
     = ([''B'', ''C''], False)
   \<and> toLowerCase ''B'' \<noteq> toLowerCase ''A'' \<and> toLowerCase ''C'' \<noteq> toLowerCase ''A''"
proof -
  let ?p = "\<lparr>title = ''A'', summary = [], links = [''B'', ''C''], page_extract = None\<rparr>"
  have eq: "candidateFilter ?p [] = ([''B'', ''C''], False)"
    by (simp add: candidateFilter_def arrayFromSet_def string_eval)
  then have "\<not> snd (candidateFilter ?p [])"
    by simp
  from candidateFilter_excludes_visited [OF this] eq show ?thesis
    by simp
qed

section \<open>The local solver\<close>

text \<open>
  C5 as stated fails: the link \<open>Apollo 11\<close> has the canonical form of the target
  \<open>Apollo_11\<close>, yet the solver goes on to the embeddings and returns another link.
\<close>

theorem direct_match_canonical_counterexample:
  "map_sum id selectedLink
     (vector_getNextMove demoVectorEnv
        \<lparr>title = ''Moon'', summary = [], links = [''NASA'', ''Apollo 11''], page_extract = None\<rparr>
        ''Apollo_11'' [])
     = Inr (JString ''NASA'')
   \<and> normalizeTitle ''Apollo 11'' = normalizeTitle ''Apollo_11''"
  by (simp add: vector_getNextMove_def directMatch_def candidateFilter_def arrayFromSet_def
      selectBest_def dotProduct_def at_index_def demoVectorEnv_def demoExtractor_def
      string_eval upt_rec)

lemma find_first_match:
  assumes "l \<in> set xs" and "P l"
  shows "\<exists>l'. find P xs = Some l' \<and> l' \<in> set xs \<and> P l'"
  using assms by (induction xs) auto

text \<open>
  C5, amended. If some outgoing link of the current page equals the non-empty target after
  lower-casing both, the solver returns the first such link, with the rationale
  \<open>Target identified! "link" is a direct match for the goal.\<close>, whatever the model and
  the history are: the model is neither loaded nor called.
\<close>

theorem direct_match_short_circuit:
  assumes "l \<in> set (links p)" and "toLowerCase l = toLowerCase t" and "t \<noteq> []"
  shows "\<exists>l'. find (\<lambda>x. toLowerCase x = toLowerCase t) (links p) = Some l'
           \<and> l' \<in> set (links p) \<and> toLowerCase l' = toLowerCase t
           \<and> (\<forall>env h. vector_getNextMove env p t h =
                 Inr \<lparr>reasoning = JString (''Target identified! '' @ [CHR 0x22] @ l' @ [CHR 0x22]
                                            @ '' is a direct match for the goal.''),
                      selectedLink = JString l'\<rparr>)"
proof -
  obtain l' where l': "find (\<lambda>x. toLowerCase x = toLowerCase t) (links p) = Some l'"
      "l' \<in> set (links p)" "toLowerCase l' = toLowerCase t"
    using find_first_match [OF assms(1), of "\<lambda>x. toLowerCase x = toLowerCase t"] assms(2)
    by blast
  have "l' \<noteq> []"
  proof
    assume "l' = []"
    then have "toLowerCase t = []" using l'(3) by (simp add: toLowerCase_def)
    then show False using assms(3) by (simp add: toLowerCase_def)
  qed
  then have "\<forall>env h. vector_getNextMove env p t h =
                 Inr \<lparr>reasoning = JString (''Target identified! '' @ [CHR 0x22] @ l' @ [CHR 0x22]
                                            @ '' is a direct match for the goal.''),
                      selectedLink = JString l'\<rparr>"
    using l'(1) by (simp add: vector_getNextMove_def directMatch_def)
  with l' show ?thesis by blast
qed

theorem direct_match_short_circuit_witness:
  "\<forall>env h. vector_getNextMove env
       \<lparr>title = ''A'', summary = [], links = [''B'', ''C''], page_extract = None\<rparr> ''c'' h =
     Inr \<lparr>reasoning = JString (''Target identified! '' @ [CHR 0x22] @ ''C'' @ [CHR 0x22]
                                @ '' is a direct match for the goal.''),
          selectedLink = JString ''C''\<rparr>"
proof -
  let ?p = "\<lparr>title = ''A'', summary = [], links = [''B'', ''C''], page_extract = None\<rparr>"
  have a: "''C'' \<in> set (links ?p)" by simp
  have b: "toLowerCase ''C'' = toLowerCase ''c''" by (simp add: string_eval)
  have c: "''c'' \<noteq> []" by simp
  have d: "find (\<lambda>x. toLowerCase x = toLowerCase ''c'') (links ?p) = Some ''C''"
    by (simp add: string_eval)
  from direct_match_short_circuit [OF a b c] d show ?thesis
    by simp
qed

text \<open>
  C2 as stated fails: on a page without outgoing links the solver raises nothing and
  returns the link \<open>Main_Page\<close>, which the page does not have.
\<close>

theorem no_candidates_counterexample:
  "vector_getNextMove demoVectorEnv
     \<lparr>title = ''Dead end'', summary = [], links = [], page_extract = None\<rparr> ''Cheese'' []
   = Inr \<lparr>reasoning = JString ''No valid links found.'', selectedLink = JString ''Main_Page''\<rparr>"
  by (simp add: vector_getNextMove_def directMatch_def candidateFilter_def arrayFromSet_def
      demoVectorEnv_def first_link_def js_or_def)

lemma zero_links_no_candidates:
  assumes "links p = []"
  shows "fst (candidateFilter p h) = [] \<and> directMatch p t = None"
  using assms by (simp add: candidateFilter_def arrayFromSet_def directMatch_def)

text \<open>
  C2, amended. When the candidate list is empty after deduplication, filtering, fallback
  and truncation (as it is on every page without outgoing links), no link matches the
  target directly and the model is loaded, the solver raises no error: it returns the
  first outgoing link of the page, or \<open>Main_Page\<close> when there is none or it is the empty
  string, with the rationale \<open>No valid links found.\<close>
\<close>

theorem no_candidates_substitutes:
  assumes "fst (candidateFilter p h) = []"
    and "directMatch p t = None \<or> directMatch p t = Some []"
    and "loadModel env = Inr (Some model)"
  shows "vector_getNextMove env p t h =
           Inr \<lparr>reasoning = JString ''No valid links found.'',
                selectedLink = JString (case links p of
                                          [] \<Rightarrow> ''Main_Page''
                                        | l # _ \<Rightarrow> if l = [] then ''Main_Page'' else l)\<rparr>"
proof -
  obtain cands b where cf: "candidateFilter p h = (cands, b)"
    by (cases "candidateFilter p h")
  with assms(1) have "cands = []" by simp
  moreover have "js_or (first_link (links p)) (JString ''Main_Page'')
      = JString (case links p of [] \<Rightarrow> ''Main_Page'' | l # _ \<Rightarrow> if l = [] then ''Main_Page'' else l)"
    by (simp add: js_or_def first_link_def split: list.splits)
  ultimately show ?thesis
    using assms(2,3) cf by (auto simp: vector_getNextMove_def)
qed

theorem no_candidates_substitutes_witness:
  "vector_getNextMove demoVectorEnv
     \<lparr>title = ''Loop'', summary = [], links = [''loop''], page_extract = None\<rparr> ''Cheese'' []
   = Inr \<lparr>reasoning = JString ''No valid links found.'', selectedLink = JString ''loop''\<rparr>"
proof -
  let ?p = "\<lparr>title = ''Loop'', summary = [], links = [''loop''], page_extract = None\<rparr>"
  have a: "fst (candidateFilter ?p []) = []"
    by (simp add: candidateFilter_def arrayFromSet_def string_eval)
  have b: "directMatch ?p ''Cheese'' = None \<or> directMatch ?p ''Cheese'' = Some []"
    by (simp add: directMatch_def string_eval)
  have c: "loadModel demoVectorEnv = Inr (Some demoExtractor)"
    by (simp add: demoVectorEnv_def)
  from no_candidates_substitutes [OF a b c] show ?thesis
    by simp
qed

section \<open>The remote solvers\<close>




lemma claude_empty_reply_raises:
  assumes "str_or apiKey (str_or (env_VITE_ANTHROPIC_API_KEY env) []) \<noteq> []"
    and "messages_create env = Inr []"
  shows "claude_getNextMove env p t h apiKey m = Inl (typeErrorMessage env)"
  using assms by (simp add: claude_getNextMove_def)

section \<open>One call of executeMove\<close>

lemma history_clickIf [simp]: "history (clickIf b st) = history st"
  by (simp add: clickIf_def togglePause_def)

lemma history_catchError [simp]: "history (catchError msg st) = history st"
  by (simp add: catchError_def)

lemma history_fetchAndApply [simp]: "history (fetchAndApply w tn link st) = history st"
  by (simp add: fetchAndApply_def split: sum.splits)


lemma commitMove_string_link:
  assumes "selectedLink mv = JString link"
  shows "commitMove w p tn sv (Inr mv) st =
           fetchAndApply w tn link (clickIf (clickDuringDelay w) (appendStep w p sv mv st))"
  using assms
  by (simp add: commitMove_def Let_def highlightThrows_def appendStep_def)

lemma history_appendStep [simp]:
  "history (appendStep w p sv mv st) =
     history st @ [\<lparr>pageTitle = title p, thought = reasoning mv, timestamp = Date_now w,
                    duration = endTime w - startTime w, solver = sv\<rparr>]"
  by (simp add: appendStep_def Let_def)

lemma executeMove_step:
  assumes "status st = PLAYING" and "currentWikiPage st = Some page"
    and "normalizeTitle (title page) \<noteq> normalizeTitle (targetPage st)"
    and "length (history st) < maxSteps"
  shows "executeMove w st =
           commitMove w page (normalizeTitle (targetPage st)) (curSolver st) (callSolver w st page)
             (clickIf (clickDuringSolver w) (st\<lparr>status := LOADING_STEP\<rparr>))"
  using assms by (simp add: executeMove_def Let_def)

lemma commitMove_history_le:
  "length (history (commitMove w p tn sv move st)) \<le> Suc (length (history st))"
  by (cases move) (simp_all add: commitMove_def Let_def split: jsvalue.splits)

text \<open>
  A call that runs alone keeps the history within the budget, and at the budget it fails
  the run without calling a solver: the resulting state does not depend on the world.
\<close>

lemma lone_call_within_budget:
  assumes "length (history st) \<le> maxSteps"
  shows "length (history (executeMove w st)) \<le> maxSteps"
proof (cases "currentWikiPage st")
  case None
  then show ?thesis using assms by (simp add: executeMove_def)
next
  case (Some page)
  show ?thesis
  proof (cases "status st = PLAYING
      \<and> normalizeTitle (title page) \<noteq> normalizeTitle (targetPage st)
      \<and> length (history st) < maxSteps")
    case True
    then have "executeMove w st =
        commitMove w page (normalizeTitle (targetPage st)) (curSolver st) (callSolver w st page)
          (clickIf (clickDuringSolver w) (st\<lparr>status := LOADING_STEP\<rparr>))"
      using Some by (intro executeMove_step) simp_all
    moreover have "length (history (commitMove w page (normalizeTitle (targetPage st))
        (curSolver st) (callSolver w st page)
        (clickIf (clickDuringSolver w) (st\<lparr>status := LOADING_STEP\<rparr>))))
      \<le> Suc (length (history (clickIf (clickDuringSolver w) (st\<lparr>status := LOADING_STEP\<rparr>))))"
      by (rule commitMove_history_le)
    ultimately show ?thesis
      using True by simp
  next
    case False
    then show ?thesis
      using Some assms by (auto simp: executeMove_def Let_def)
  qed
qed

lemma budget_tick_fails:
  assumes "status st = PLAYING" and "currentWikiPage st = Some page"
    and "normalizeTitle (title page) \<noteq> normalizeTitle (targetPage st)"
    and "maxSteps \<le> length (history st)"
  shows "executeMove w st =
           st\<lparr>status := FAILED,
              error := Some ''Maximum attempts reached without finding the target.''\<rparr>"
  using assms by (simp add: executeMove_def Let_def)

text \<open>
  A link that is not a string: a truthy one makes the highlight effect throw on a page
  with a labelled anchor, which unmounts the component; \<open>undefined\<close> reaches the
  \<open>catch\<close> block after the step has been appended.
\<close>

lemma commitMove_number_link_unmounts:
  assumes "selectedLink mv = JNumber 42" and "highlightedLink st = None"
    and "currentWikiPage st = Some page" and "labelledAnchor w"
  shows "mounted (commitMove w p tn sv (Inr mv) st) = False"
  using assms
  by (simp add: commitMove_def Let_def appendStep_def highlightThrows_def highlightChanged_def)

lemma commitMove_undefined_link_fails:
  assumes "selectedLink mv = JUndefined"
  shows "status (commitMove w p tn sv (Inr mv) st) = FAILED"
  using assms
  by (simp add: commitMove_def Let_def appendStep_def highlightThrows_def catchError_def)












text \<open>
  C9, amended. For a step during which the pause button is clicked once while the solver
  call or the pacing delay is pending, and not again during the fetch: when the solver
  returns a link that is a string and the fetch of it resolves, the step is appended and the
  fetched page becomes the current page; the run ends in \<open>SUCCESS\<close> when the link is
  canonically the target, and otherwise stays \<open>PAUSED\<close>, where a further tick changes
  nothing.
\<close>



section \<open>Runs\<close>

text \<open>
  The function \<open>executeMove\<close> is the run of the events of one call, with the pause clicks
  of the world in between, when no other call is pending.
\<close>

lemma fold_clicks:
  assumes "mounted st" and "status st \<noteq> IDLE"
  shows "fold applyEvent (clicks b) \<lparr>app = st, pending = ps\<rparr>
         = \<lparr>app = clickIf b st, pending = ps\<rparr>"
  using assms by (simp add: clicks_def clickIf_def applyEvent_def onApp_def)

lemma executeMove_as_events:
  assumes "mounted st" and "status st = PLAYING" and "currentWikiPage st = Some page"
    and "normalizeTitle (title page) \<noteq> normalizeTitle (targetPage st)"
    and "length (history st) < maxSteps"
    and "callSolver w st page = Inr mv" and "selectedLink mv = JString link"
  shows "fold applyEvent
           ([Tick w] @ clicks (clickDuringSolver w) @ [Settle 0] @ clicks (clickDuringDelay w)
            @ [Settle 0] @ clicks (clickDuringFetch w) @ [Settle 0])
           \<lparr>app = st, pending = []\<rparr>
         = \<lparr>app = executeMove w st, pending = []\<rparr>"
proof -
  let ?tn = "normalizeTitle (targetPage st)"
  let ?s1 = "clickIf (clickDuringSolver w) (st\<lparr>status := LOADING_STEP\<rparr>)"
  let ?s2 = "appendStep w page (curSolver st) mv ?s1"
  let ?s3 = "clickIf (clickDuringDelay w) ?s2"
  let ?kind = "if normalizeTitle link = ?tn then FinalFetch
               else if status ?s3 = PAUSED then PausedFetch else NextFetch"
  let ?s4 = "clickIf (clickDuringFetch w) ?s3"
  have m: "mounted (st\<lparr>status := LOADING_STEP\<rparr>)" "mounted ?s1" "mounted ?s2" "mounted ?s3"
      "mounted ?s4"
    using assms(1) by (simp_all add: clickIf_def togglePause_def appendStep_def Let_def)
  have ni: "status (st\<lparr>status := LOADING_STEP\<rparr>) \<noteq> IDLE" "status ?s2 \<noteq> IDLE"
      "status ?s3 \<noteq> IDLE"
    by (simp_all add: clickIf_def togglePause_def appendStep_def Let_def)
  have a: "applyEvent (Tick w) \<lparr>app = st, pending = []\<rparr>
      = \<lparr>app = st\<lparr>status := LOADING_STEP\<rparr>,
          pending = [AwaitSolver w page ?tn (curSolver st) (Inr mv)]\<rparr>"
    using assms by (simp add: applyEvent_def launch_def beginMove_def Let_def)
  have b: "applyEvent (Settle 0)
        \<lparr>app = ?s1, pending = [AwaitSolver w page ?tn (curSolver st) (Inr mv)]\<rparr>
      = \<lparr>app = ?s2, pending = [AwaitDelay w ?tn (JString link)]\<rparr>"
    using m(2) assms(7)
    by (simp add: applyEvent_def settleAt_def Let_def highlightThrows_def appendStep_def)
  have c: "applyEvent (Settle 0) \<lparr>app = ?s3, pending = [AwaitDelay w ?tn (JString link)]\<rparr>
      = \<lparr>app = ?s3, pending = [AwaitFetch w link ?kind]\<rparr>"
    using m(4) by (simp add: applyEvent_def settleAt_def)
  have d: "applyEvent (Settle 0) \<lparr>app = ?s4, pending = [AwaitFetch w link ?kind]\<rparr>
      = \<lparr>app = fetchAndApply w ?tn link ?s3, pending = []\<rparr>"
    using m(5)
    by (simp add: applyEvent_def settleAt_def fetchAndApply_def applyFetched_def
        split: sum.splits)
  have e: "executeMove w st = fetchAndApply w ?tn link ?s3"
    using executeMove_step [OF assms(2-5), of w] assms(6)
    by (simp add: commitMove_string_link [OF assms(7)])
  show ?thesis
    by (simp only: fold_append fold.simps o_apply id_apply a b c d e
        fold_clicks [OF m(1) ni(1)] fold_clicks [OF m(3) ni(2)] fold_clicks [OF m(4) ni(3)])
qed

lemma tick_event:
  assumes "mounted st" and "status st = PLAYING"
    and "currentWikiPage st = Some (echoPage ''Apollo 11'')" and "targetPage st = ''Cheese''"
    and "length (history st) < 40" and "curSolver st = GEMINI"
  shows "applyEvent (Tick apolloWorld) \<lparr>app = st, pending = ps\<rparr>
         = \<lparr>app = st\<lparr>status := LOADING_STEP\<rparr>, pending = ps @ [apolloCall]\<rparr>"
proof -
  have t: "title (echoPage ''Apollo 11'') = ''Apollo 11''"
    by (simp add: echoPage_def)
  show ?thesis
    using assms
    by (simp add: applyEvent_def launch_def beginMove_def demoWorld_solver t normalize_apollo
        normalize_cheese maxSteps_def apolloWorld_def apolloCall_def)
qed

lemma pause_event:
  assumes "mounted st" and "status st \<noteq> IDLE"
  shows "applyEvent PauseClick \<lparr>app = st, pending = ps\<rparr>
         = \<lparr>app = st\<lparr>status := (if status st = PAUSED then PLAYING else PAUSED)\<rparr>,
             pending = ps\<rparr>"
  using assms by (simp add: applyEvent_def onApp_def togglePause_def)

lemma solver_event:
  assumes "mounted st"
  shows "applyEvent (Settle 0) \<lparr>app = st, pending = apolloCall # ps\<rparr>
         = \<lparr>app = st\<lparr>highlightedLink := Some (JString ''Apollo 11''),
                       history := history st @ [demoStep]\<rparr>,
             pending = AwaitDelay apolloWorld ''cheese'' (JString ''Apollo 11'') # ps\<rparr>"
  using assms
  by (simp add: applyEvent_def settleAt_def apolloCall_def appendStep_def highlightThrows_def
      highlightChanged_def apolloWorld_def demoWorld_fields echoPage_def demoStep_def)

lemma delay_event:
  assumes "mounted st" and "status st \<noteq> PAUSED"
  shows "applyEvent (Settle 0)
           \<lparr>app = st, pending = AwaitDelay apolloWorld ''cheese'' (JString ''Apollo 11'') # ps\<rparr>
         = \<lparr>app = st, pending = AwaitFetch apolloWorld ''Apollo 11'' NextFetch # ps\<rparr>"
  using assms by (simp add: applyEvent_def settleAt_def normalize_apollo)

lemma fetch_event:
  assumes "mounted st"
  shows "applyEvent (Settle 0)
           \<lparr>app = st, pending = AwaitFetch apolloWorld ''Apollo 11'' NextFetch # ps\<rparr>
         = \<lparr>app = st\<lparr>currentWikiPage := Some (echoPage ''Apollo 11''),
                       highlightedLink := None, status := PLAYING\<rparr>,
             pending = ps\<rparr>"
  using assms
  by (simp add: applyEvent_def settleAt_def applyFetched_def apolloWorld_def demoWorld_fields)

lemmas atStep_eval = atStep_def playingAt_def initialState_def

lemma whole_step:
  assumes "n < 40"
  shows "fold applyEvent (stepEvents apolloWorld) \<lparr>app = atStep n, pending = []\<rparr>
         = \<lparr>app = atStep (Suc n), pending = []\<rparr>"
proof -
  let ?s1 = "(atStep n)\<lparr>status := LOADING_STEP\<rparr>"
  let ?s2 = "?s1\<lparr>highlightedLink := Some (JString ''Apollo 11''),
                  history := history ?s1 @ [demoStep]\<rparr>"
  have a: "applyEvent (Tick apolloWorld) \<lparr>app = atStep n, pending = []\<rparr>
      = \<lparr>app = ?s1, pending = [apolloCall]\<rparr>"
    using tick_event [of "atStep n" "[]"] assms by (simp add: atStep_eval)
  have b: "applyEvent (Settle 0) \<lparr>app = ?s1, pending = [apolloCall]\<rparr>
      = \<lparr>app = ?s2, pending = [AwaitDelay apolloWorld ''cheese'' (JString ''Apollo 11'')]\<rparr>"
    by (rule solver_event) (simp add: atStep_eval)
  have c: "applyEvent (Settle 0)
        \<lparr>app = ?s2, pending = [AwaitDelay apolloWorld ''cheese'' (JString ''Apollo 11'')]\<rparr>
      = \<lparr>app = ?s2, pending = [AwaitFetch apolloWorld ''Apollo 11'' NextFetch]\<rparr>"
    by (rule delay_event) (simp_all add: atStep_eval)
  have d: "applyEvent (Settle 0)
        \<lparr>app = ?s2, pending = [AwaitFetch apolloWorld ''Apollo 11'' NextFetch]\<rparr>
      = \<lparr>app = ?s2\<lparr>currentWikiPage := Some (echoPage ''Apollo 11''),
                      highlightedLink := None, status := PLAYING\<rparr>,
          pending = []\<rparr>"
    by (rule fetch_event) (simp add: atStep_eval)
  have e: "?s2\<lparr>currentWikiPage := Some (echoPage ''Apollo 11''),
               highlightedLink := None, status := PLAYING\<rparr> = atStep (Suc n)"
    by (simp add: atStep_eval replicate_append_same)
  show ?thesis
    by (simp only: stepEvents_def fold.simps o_apply id_apply a b c d e)
qed

lemma many_steps:
  assumes "n + k \<le> 40"
  shows "fold applyEvent (concat (replicate k (stepEvents apolloWorld)))
           \<lparr>app = atStep n, pending = []\<rparr>
         = \<lparr>app = atStep (n + k), pending = []\<rparr>"
  using assms
proof (induction k arbitrary: n)
  case 0
  then show ?case by simp
next
  case (Suc k)
  then have "n < 40" and "Suc n + k \<le> 40"
    by simp_all
  then show ?case
    using Suc.IH [of "Suc n"] by (simp add: whole_step)
qed

lemma start_run:
  "fold applyEvent [StartClick apolloWorld, Settle 0] initialConfig
     = \<lparr>app = atStep 0, pending = []\<rparr>"
  by (simp add: applyEvent_def launch_def settleAt_def beginStart_def initialConfig_def
      highlightThrows_def apolloWorld_def demoWorld_fields atStep_eval)

lemma race_from_39:
  "fold applyEvent overlapEvents \<lparr>app = atStep 39, pending = []\<rparr>
   = \<lparr>app = (atStep 39)\<lparr>history := replicate 39 demoStep @ [demoStep, demoStep]\<rparr>,
       pending = []\<rparr>"
proof -
  let ?s0 = "atStep 39"
  let ?s1 = "?s0\<lparr>status := LOADING_STEP\<rparr>"
  let ?s2 = "?s0\<lparr>status := PAUSED\<rparr>"
  let ?s4 = "?s1\<lparr>highlightedLink := Some (JString ''Apollo 11''),
                  history := replicate 39 demoStep @ [demoStep]\<rparr>"
  let ?s5 = "?s0\<lparr>history := replicate 39 demoStep @ [demoStep]\<rparr>"
  let ?s6 = "?s5\<lparr>highlightedLink := Some (JString ''Apollo 11''),
                  history := replicate 39 demoStep @ [demoStep, demoStep]\<rparr>"
  let ?D = "AwaitDelay apolloWorld ''cheese'' (JString ''Apollo 11'')"
  let ?F = "AwaitFetch apolloWorld ''Apollo 11'' NextFetch"
  have e1: "applyEvent (Tick apolloWorld) \<lparr>app = ?s0, pending = []\<rparr>
      = \<lparr>app = ?s1, pending = [apolloCall]\<rparr>"
    using tick_event [of ?s0 "[]"] by (simp add: atStep_eval)
  have e2: "applyEvent PauseClick \<lparr>app = ?s1, pending = [apolloCall]\<rparr>
      = \<lparr>app = ?s2, pending = [apolloCall]\<rparr>"
    using pause_event [of ?s1 "[apolloCall]"] by (simp add: atStep_eval)
  have e3: "applyEvent PauseClick \<lparr>app = ?s2, pending = [apolloCall]\<rparr>
      = \<lparr>app = ?s0, pending = [apolloCall]\<rparr>"
    using pause_event [of ?s2 "[apolloCall]"] by (simp add: atStep_eval)
  have e4: "applyEvent (Tick apolloWorld) \<lparr>app = ?s0, pending = [apolloCall]\<rparr>
      = \<lparr>app = ?s1, pending = [apolloCall, apolloCall]\<rparr>"
    using tick_event [of ?s0 "[apolloCall]"] by (simp add: atStep_eval)
  have e5: "applyEvent (Settle 0) \<lparr>app = ?s1, pending = [apolloCall, apolloCall]\<rparr>
      = \<lparr>app = ?s4, pending = [?D, apolloCall]\<rparr>"
    using solver_event [of ?s1 "[apolloCall]"] by (simp add: atStep_eval)
  have e6: "applyEvent (Settle 0) \<lparr>app = ?s4, pending = [?D, apolloCall]\<rparr>
      = \<lparr>app = ?s4, pending = [?F, apolloCall]\<rparr>"
    by (rule delay_event) (simp_all add: atStep_eval)
  have e7: "applyEvent (Settle 0) \<lparr>app = ?s4, pending = [?F, apolloCall]\<rparr>
      = \<lparr>app = ?s5, pending = [apolloCall]\<rparr>"
    using fetch_event [of ?s4 "[apolloCall]"] by (simp add: atStep_eval)
  have e8: "applyEvent (Settle 0) \<lparr>app = ?s5, pending = [apolloCall]\<rparr>
      = \<lparr>app = ?s6, pending = [?D]\<rparr>"
    using solver_event [of ?s5 "[]"] by (simp add: atStep_eval)
  have e9: "applyEvent (Settle 0) \<lparr>app = ?s6, pending = [?D]\<rparr>
      = \<lparr>app = ?s6, pending = [?F]\<rparr>"
    by (rule delay_event) (simp_all add: atStep_eval)
  have e10: "applyEvent (Settle 0) \<lparr>app = ?s6, pending = [?F]\<rparr>
      = \<lparr>app = ?s0\<lparr>history := replicate 39 demoStep @ [demoStep, demoStep]\<rparr>,
          pending = []\<rparr>"
    using fetch_event [of ?s6 "[]"] by (simp add: atStep_eval)
  show ?thesis
    by (simp only: overlapEvents_def fold.simps o_apply id_apply e1 e2 e3 e4 e5 e6 e7 e8 e9 e10)
qed

text \<open>
  C7 fails on the code. The budget test reads the history the call of \<open>executeMove\<close>
  started with. With 39 steps in the history, a pause click and a resume click while the
  solver call is pending let the timer start a second call, which passes the same test;
  both calls then append their step, and the history has 41 entries against a budget of 40.
\<close>

theorem budget_overrun_by_overlap:
  "length (history (app (run raceEvents))) = 41 \<and> maxSteps = 40"
proof -
  have "run raceEvents =
      fold applyEvent overlapEvents
        (fold applyEvent (concat (replicate 39 (stepEvents apolloWorld)))
          (fold applyEvent [StartClick apolloWorld, Settle 0] initialConfig))"
    by (simp only: run_def raceEvents_def fold_append o_apply)
  also have "\<dots> =
      fold applyEvent overlapEvents
        (fold applyEvent (concat (replicate 39 (stepEvents apolloWorld)))
          \<lparr>app = atStep 0, pending = []\<rparr>)"
    by (simp only: start_run)
  also have "\<dots> = fold applyEvent overlapEvents \<lparr>app = atStep 39, pending = []\<rparr>"
    using many_steps [of 0 39] by simp
  also have "\<dots> =
      \<lparr>app = (atStep 39)\<lparr>history := replicate 39 demoStep @ [demoStep, demoStep]\<rparr>,
       pending = []\<rparr>"
    by (rule race_from_39)
  finally show ?thesis
    by (simp add: maxSteps_def)
qed

end
